theory Spec2Isabelle
  imports Complex_Main
begin

section \<open>Data model (synthaser/models.py)\<close>

text \<open>
  A conserved domain hit, class \<open>Domain\<close> with slots \<open>type\<close>, \<open>domain\<close>, \<open>start\<close> and
  \<open>end\<close>. The field names carry the prefix \<open>d_\<close> because \<open>type\<close> and \<open>end\<close> are
  reserved words here. \<open>Domain.__eq__\<close> compares the four fields, which is the equality of
  the record. Coordinates are Python integers.
\<close>

record Domain =
  d_type :: string
  d_domain :: string
  d_start :: int
  d_end :: int

text \<open>
  \<open>hits_overlap(a, b, threshold=0.9)\<close>. The threshold is a number; it is modelled as an
  exact rational, the default being \<open>9/10\<close>.
\<close>

definition hits_overlap :: "Domain \<Rightarrow> Domain \<Rightarrow> rat \<Rightarrow> bool" where
  "hits_overlap a b threshold =
     (let start = max (d_start a) (d_start b);
          end' = min (d_end a) (d_end b);
          overlap = max 0 (end' - start);
          a_threshold = threshold * of_int (d_end a - d_start a);
          b_threshold = threshold * of_int (d_end b - d_start b)
      in of_int overlap \<ge> a_threshold \<or> of_int overlap \<ge> b_threshold)"

definition default_threshold :: rat where
  "default_threshold = 9 / 10"

subsection \<open>group_overlapping_hits\<close>

text \<open>
  The inner \<open>for j in range(i + 1, total)\<close> loop of \<open>group_overlapping_hits\<close>. It returns
  the group as it stands when the loop is left, and the groups yielded on the way.
\<close>

function inner_loop ::
  "rat \<Rightarrow> Domain list \<Rightarrow> Domain \<Rightarrow> nat \<Rightarrow> Domain list \<Rightarrow> Domain list \<times> Domain list list" where
  "inner_loop threshold domains current j grp =
     (if j < length domains then
        (let future = domains ! j in
         if hits_overlap current future threshold then
           (let grp' = grp @ [future];
                yielded = (if j = length domains - 1 then [grp'] else []);
                (g, ys) = inner_loop threshold domains current (j + 1) grp'
            in (g, yielded @ ys))
         else (grp, [grp]))
      else (grp, []))"
  by pat_completeness auto
termination
  by (relation "measure (\<lambda>(threshold, domains, current, j, grp). length domains - j)") auto

declare inner_loop.simps [simp del]

lemma inner_loop_length:
  "length grp \<le> length (fst (inner_loop threshold domains current j grp))"
proof (induction threshold domains current j grp rule: inner_loop.induct)
  case (1 threshold domains current j grp)
  show ?case
  proof (cases "j < length domains \<and> hits_overlap current (domains ! j) threshold")
    case True
    obtain g ys where eq:
      "inner_loop threshold domains current (j + 1) (grp @ [domains ! j]) = (g, ys)"
      by (cases "inner_loop threshold domains current (j + 1) (grp @ [domains ! j])")
    from 1 [of "domains ! j" "grp @ [domains ! j]"] True eq
    have "length (grp @ [domains ! j]) \<le> length g"
      by simp
    moreover have "fst (inner_loop threshold domains current j grp) = g"
      using True eq by (subst inner_loop.simps) (simp add: Let_def)
    ultimately show ?thesis by simp
  next
    case False
    then show ?thesis
      by (subst inner_loop.simps) (auto simp: Let_def)
  qed
qed

text \<open>
  The outer \<open>while i < total\<close> loop, on the list already sorted. The index advances by
  the length of the group, which holds at least \<open>current\<close>.
\<close>

function outer_loop :: "rat \<Rightarrow> Domain list \<Rightarrow> nat \<Rightarrow> Domain list list" where
  "outer_loop threshold domains i =
     (if i < length domains then
        (let current = domains ! i;
             grp = [current]
         in if i = length domains - 1 then [grp]
            else (let (grp', ys) = inner_loop threshold domains current (i + 1) grp
                  in ys @ outer_loop threshold domains (i + length grp')))
      else [])"
  by pat_completeness auto
termination
proof (relation "measure (\<lambda>(threshold, domains, i). length domains - i)")
  show "wf (measure (\<lambda>(threshold, domains, i). length domains - i))" by simp
next
  fix threshold :: rat and domains :: "Domain list" and i :: nat
    and current grp x xa y
  assume a: "i < length domains" "current = domains ! i" "grp = [current]"
    "i \<noteq> length domains - 1"
    "x = inner_loop threshold domains current (i + 1) grp" "(xa, y) = x"
  have "length grp \<le> length (fst (inner_loop threshold domains current (i + 1) grp))"
    by (rule inner_loop_length)
  with a have "1 \<le> length xa" by (metis fst_conv length_Cons list.size(3) One_nat_def)
  with a show "((threshold, domains, i + length xa), threshold, domains, i)
        \<in> measure (\<lambda>(threshold, domains, i). length domains - i)"
    by simp
qed

declare outer_loop.simps [simp del]

definition group_overlapping_hits :: "Domain list \<Rightarrow> rat \<Rightarrow> Domain list list" where
  "group_overlapping_hits domains threshold =
     outer_loop threshold (sort_key d_start domains) 0"

text \<open>
  The clustering in the words of the specification: a group is its anchor (the first
  element) followed by the longest run of following elements that each overlap the
  anchor; the next group starts at the first element that does not.
\<close>

function anchor_groups :: "rat \<Rightarrow> Domain list \<Rightarrow> Domain list list" where
  "anchor_groups threshold [] = []"
| "anchor_groups threshold (anchor # rest) =
     (anchor # takeWhile (\<lambda>d. hits_overlap anchor d threshold) rest)
     # anchor_groups threshold (dropWhile (\<lambda>d. hits_overlap anchor d threshold) rest)"
  by pat_completeness auto
termination
  by (relation "measure (\<lambda>(threshold, ds). length ds)")
     (auto simp: length_dropWhile_le less_Suc_eq_le)

subsection \<open>rename_parent_domain\<close>

text \<open>
  \<open>domains.pop(index)\<close> for an index inside the list.
\<close>

definition pop :: "'a list \<Rightarrow> nat \<Rightarrow> 'a list" where
  "pop xs index = take index xs @ drop (Suc index) xs"

text \<open>
  The \<open>while index < total\<close> loop of \<open>rename_parent_domain\<close>; \<open>total\<close> is the length of
  the list throughout, since it is decremented with every \<open>pop\<close>. The loop starts at
  index 1, so \<open>index - 1\<close> is never negative. \<open>hits_overlap\<close> is called with its default
  threshold.
\<close>

function rename_parent_loop :: "Domain list \<Rightarrow> string \<Rightarrow> string \<Rightarrow> nat \<Rightarrow> Domain list" where
  "rename_parent_loop domains parent child index =
     (if index < length domains then
        (let one = domains ! (index - 1);
             two = domains ! index
         in if hits_overlap one two default_threshold \<and> (d_type one, d_type two) = (parent, child)
            then rename_parent_loop
                   (pop (domains[index - 1 := one\<lparr>d_type := child\<rparr>]) index) parent child index
            else rename_parent_loop domains parent child (index + 1))
      else domains)"
  by pat_completeness auto
termination
  by (relation "measure (\<lambda>(domains, parent, child, index). length domains - index)")
     (auto simp: pop_def)

declare rename_parent_loop.simps [simp del]

definition rename_parent_domain :: "Domain list \<Rightarrow> string \<Rightarrow> string \<Rightarrow> Domain list" where
  "rename_parent_domain domains parent child = rename_parent_loop domains parent child 1"

subsection \<open>Synthase.rename_nrps_domains\<close>

record Synthase =
  s_header :: string
  s_sequence :: string
  s_domains :: "Domain list"
  s_type :: string
  s_subtype :: string

text \<open>The substring test \<open>sub in s\<close> on strings.\<close>

fun str_contains :: "string \<Rightarrow> string \<Rightarrow> bool" where
  "str_contains [] sub = (sub = [])"
| "str_contains (c # cs) sub = (take (length sub) (c # cs) = sub \<or> str_contains cs sub)"

text \<open>
  \<open>for start, domain in enumerate(self.domains): if domain.type == "C": break\<close>.
  The loop variable \<open>start\<close> is assigned at the head of every iteration and keeps its
  last value when the loop ends; the first argument is the value of \<open>start\<close> so far and
  the second the index of the next element.
\<close>

fun find_start :: "nat \<Rightarrow> nat \<Rightarrow> Domain list \<Rightarrow> nat" where
  "find_start start idx [] = start"
| "find_start start idx (domain # rest) =
     (if d_type domain = ''C'' then idx else find_start idx (idx + 1) rest)"

text \<open>The table \<open>replace = {"ACP": "T", "TR": "R"}\<close> and the loop that applies it.\<close>

definition replace_table :: "(string \<times> string) list" where
  "replace_table = [(''ACP'', ''T''), (''TR'', ''R'')]"

definition relabel :: "Domain \<Rightarrow> Domain" where
  "relabel domain =
     (case map_of replace_table (d_type domain) of
        Some t \<Rightarrow> domain\<lparr>d_type := t\<rparr>
      | None \<Rightarrow> domain)"

definition rename_nrps_domains :: "Synthase \<Rightarrow> Synthase" where
  "rename_nrps_domains self =
     (if s_type self = [] \<or> str_contains (s_type self) ''PKS'' then self
      else
        (let start = (if s_type self = ''Hybrid'' then find_start 0 0 (s_domains self) else 0);
             domains = take start (s_domains self) @ map relabel (drop start (s_domains self))
         in self\<lparr>s_domains := rename_parent_domain domains ''C'' ''E''\<rparr>))"

section \<open>Rule evaluation (synthaser/classify.py)\<close>

text \<open>
  Python exceptions as values. \<open>Unmodelled\<close> is not a Python exception: it marks an
  expression text outside the fragment of Python expressions that is modelled below, so
  that nothing is stated about such a text.
\<close>

datatype pyerr = KeyError | TypeError | SyntaxError | Unmodelled

text \<open>
  The values an expression of the fragment evaluates to. \<open>and\<close> and \<open>or\<close> return one of
  their operands, so a result is a boolean or an integer; \<open>truthy\<close> is Python's truth
  test, as applied by \<open>if\<close> and \<open>not\<close>.
\<close>

datatype pyval = PBool bool | PInt int

fun truthy :: "pyval \<Rightarrow> bool" where
  "truthy (PBool b) = b"
| "truthy (PInt n) = (n \<noteq> 0)"

record Rule =
  r_name :: string
  r_rename :: "(string \<times> string) list"
  r_domains :: "string list"
  r_filters :: "(string \<times> string list) list"
  r_evaluator :: string

subsection \<open>str and str.replace\<close>

definition digit_char :: "nat \<Rightarrow> char" where
  "digit_char d = ''0123456789'' ! d"

text \<open>\<open>str(idx)\<close> for a non-negative integer: its decimal digits.\<close>

function str_nat :: "nat \<Rightarrow> string" where
  "str_nat n = (if n < 10 then [digit_char n] else str_nat (n div 10) @ [digit_char (n mod 10)])"
  by pat_completeness auto
termination
  by (relation "measure id") auto

declare str_nat.simps [simp del]

definition str_bool :: "bool \<Rightarrow> string" where
  "str_bool b = (if b then ''True'' else ''False'')"

text \<open>
  \<open>s.replace(old, new)\<close>: every occurrence of \<open>old\<close>, found from left to right without
  overlap, is replaced. For an empty \<open>old\<close> Python inserts \<open>new\<close> before every character
  and at the end.
\<close>

function replace_nonempty :: "string \<Rightarrow> string \<Rightarrow> string \<Rightarrow> string" where
  "replace_nonempty [] old new = []"
| "replace_nonempty (c # cs) old new =
     (if old \<noteq> [] \<and> take (length old) (c # cs) = old
      then new @ replace_nonempty (drop (length old) (c # cs)) old new
      else c # replace_nonempty cs old new)"
  by pat_completeness auto
termination
  by (relation "measure (\<lambda>(s, old, new). length s)") auto

definition replace :: "string \<Rightarrow> string \<Rightarrow> string \<Rightarrow> string" where
  "replace s old new =
     (if old = [] then concat (map (\<lambda>c. new @ [c]) s) @ new else replace_nonempty s old new)"

subsection \<open>The fragment of eval\<close>

text \<open>
  \<open>Rule.evaluate\<close> hands the substituted text to Python's \<open>eval\<close>. The model covers the
  expressions a rule is made of: decimal integer literals, \<open>True\<close>, \<open>False\<close>, names,
  \<open>not\<close>, \<open>and\<close>, \<open>or\<close> and parentheses, separated by blanks. Any other character, any
  other reserved word, a number followed directly by a character that may continue a
  numeric literal or begin a keyword, a call and the empty tuple give \<open>Unmodelled\<close>.
\<close>

datatype token = TInt nat | TName string | TTrue | TFalse | TNot | TAnd | TOr | TLParen | TRParen

definition is_digit :: "char \<Rightarrow> bool" where
  "is_digit c = (c \<in> set ''0123456789'')"

definition is_name_start :: "char \<Rightarrow> bool" where
  "is_name_start c = (c \<in> set ''abcdefghijklmnopqrstuvwxyzABCDEFGHIJKLMNOPQRSTUVWXYZ_'')"

definition is_name_char :: "char \<Rightarrow> bool" where
  "is_name_char c = (is_name_start c \<or> is_digit c)"

definition digit_val :: "char \<Rightarrow> nat" where
  "digit_val c = of_char c - 48"

definition nat_of_digits :: "string \<Rightarrow> nat" where
  "nat_of_digits ds = foldl (\<lambda>acc c. 10 * acc + digit_val c) 0 ds"

text \<open>The reserved words of Python outside the fragment.\<close>

definition other_keywords :: "string list" where
  "other_keywords =
     [''None'', ''as'', ''assert'', ''async'', ''await'', ''break'', ''class'', ''continue'',
      ''def'', ''del'', ''elif'', ''else'', ''except'', ''finally'', ''for'', ''from'',
      ''global'', ''if'', ''import'', ''in'', ''is'', ''lambda'', ''nonlocal'', ''pass'',
      ''raise'', ''return'', ''try'', ''while'', ''with'', ''yield'']"

definition word_token :: "string \<Rightarrow> pyerr + token" where
  "word_token w =
     (if w = ''True'' then Inr TTrue
      else if w = ''False'' then Inr TFalse
      else if w = ''not'' then Inr TNot
      else if w = ''and'' then Inr TAnd
      else if w = ''or'' then Inr TOr
      else if w \<in> set other_keywords then Inl Unmodelled
      else Inr (TName w))"

text \<open>
  A decimal literal with a leading zero is a syntax error unless all its digits are zero.
\<close>

definition number_token :: "string \<Rightarrow> pyerr + token" where
  "number_token ds =
     (if length ds > 1 \<and> hd ds = CHR ''0'' \<and> ds \<noteq> replicate (length ds) (CHR ''0'')
      then Inl SyntaxError
      else Inr (TInt (nat_of_digits ds)))"

text \<open>
  A letter or underscore directly behind the digits of a number is a syntax error
  (\<open>1True\<close>: invalid decimal literal), unless the character may continue a numeric
  literal (a dot, an exponent, \<open>j\<close>, the digit separator, a base prefix) or begins one of
  the keywords \<open>and\<close>, \<open>else\<close>, \<open>for\<close>, \<open>if\<close>, \<open>in\<close>, \<open>is\<close>, \<open>not\<close>, \<open>or\<close>, which
  Python versions treat differently. These characters are outside the fragment.
\<close>

definition number_suffix_chars :: string where
  "number_suffix_chars = ''._eEjJafinoOxXbB''"

definition cons_token :: "pyerr + token \<Rightarrow> pyerr + token list \<Rightarrow> pyerr + token list" where
  "cons_token t ts =
     (case t of Inl e \<Rightarrow> Inl e
      | Inr tok \<Rightarrow> (case ts of Inl e \<Rightarrow> Inl e | Inr toks \<Rightarrow> Inr (tok # toks)))"

function tokenize :: "string \<Rightarrow> pyerr + token list" where
  "tokenize [] = Inr []"
| "tokenize (c # cs) =
     (if c = CHR '' '' \<or> c = CHR 0x09 then tokenize cs
      else if c = CHR ''('' then cons_token (Inr TLParen) (tokenize cs)
      else if c = CHR '')'' then cons_token (Inr TRParen) (tokenize cs)
      else if is_digit c then
        (let ds = takeWhile is_digit (c # cs);
             rest = dropWhile is_digit (c # cs)
         in if rest \<noteq> [] \<and> hd rest \<in> set number_suffix_chars then Inl Unmodelled
            else if rest \<noteq> [] \<and> is_name_start (hd rest) then Inl SyntaxError
            else cons_token (number_token ds) (tokenize rest))
      else if is_name_start c then
        (let w = takeWhile is_name_char (c # cs);
             rest = dropWhile is_name_char (c # cs)
         in cons_token (word_token w) (tokenize rest))
      else Inl Unmodelled)"
  by pat_completeness auto
termination
  by (relation "measure length")
     (auto simp: is_name_char_def length_dropWhile_le less_Suc_eq_le)

declare tokenize.simps(2) [simp del]

datatype bexp = Const pyval | Name string | Not bexp | And bexp bexp | Or bexp bexp

text \<open>
  The parser follows Python's grammar for the fragment:
  \<open>or_test: and_test ('or' and_test)*\<close>, \<open>and_test: not_test ('and' not_test)*\<close>,
  \<open>not_test: 'not' not_test | atom\<close>, \<open>atom: NUMBER | 'True' | 'False' | NAME | '(' or_test ')'\<close>.
  \<open>parse n nt ts\<close> reads the grammar symbol \<open>nt\<close> from the tokens \<open>ts\<close> and returns the
  expression read and the tokens left; \<open>OrRest l\<close> and \<open>AndRest l\<close> are the repetitions
  after a left operand \<open>l\<close>. The first argument bounds the depth of the recursion; when it
  is used up the result is \<open>Unmodelled\<close>.
\<close>

datatype grammar_sym = OrTest | OrRest bexp | AndTest | AndRest bexp | NotTest | Atom

definition next_is :: "token \<Rightarrow> token list \<Rightarrow> bool" where
  "next_is t ts = (ts \<noteq> [] \<and> hd ts = t)"

definition after_atom :: "bexp \<Rightarrow> token list \<Rightarrow> pyerr + (bexp \<times> token list)" where
  "after_atom e ts = (if next_is TLParen ts then Inl Unmodelled else Inr (e, ts))"

fun simple_atom :: "token \<Rightarrow> bexp option" where
  "simple_atom (TInt k) = Some (Const (PInt (int k)))"
| "simple_atom TTrue = Some (Const (PBool True))"
| "simple_atom TFalse = Some (Const (PBool False))"
| "simple_atom (TName x) = Some (Name x)"
| "simple_atom t = None"

primrec parse :: "nat \<Rightarrow> grammar_sym \<Rightarrow> token list \<Rightarrow> pyerr + (bexp \<times> token list)" where
  "parse 0 nt ts = Inl Unmodelled"
| "parse (Suc n) nt ts =
     (case nt of
        OrTest \<Rightarrow>
          (case parse n AndTest ts of
             Inl e \<Rightarrow> Inl e
           | Inr (l, rest) \<Rightarrow> parse n (OrRest l) rest)
      | OrRest l \<Rightarrow>
          (if next_is TOr ts then
             (case parse n AndTest (tl ts) of
                Inl e \<Rightarrow> Inl e
              | Inr (r, rest) \<Rightarrow> parse n (OrRest (Or l r)) rest)
           else Inr (l, ts))
      | AndTest \<Rightarrow>
          (case parse n NotTest ts of
             Inl e \<Rightarrow> Inl e
           | Inr (l, rest) \<Rightarrow> parse n (AndRest l) rest)
      | AndRest l \<Rightarrow>
          (if next_is TAnd ts then
             (case parse n NotTest (tl ts) of
                Inl e \<Rightarrow> Inl e
              | Inr (r, rest) \<Rightarrow> parse n (AndRest (And l r)) rest)
           else Inr (l, ts))
      | NotTest \<Rightarrow>
          (if next_is TNot ts then
             (case parse n NotTest (tl ts) of
                Inl e \<Rightarrow> Inl e
              | Inr (a, rest) \<Rightarrow> Inr (Not a, rest))
           else parse n Atom ts)
      | Atom \<Rightarrow>
          (if ts = [] then Inl SyntaxError
           else if hd ts = TLParen then
             (if next_is TRParen (tl ts) then Inl Unmodelled
              else
                (case parse n OrTest (tl ts) of
                   Inl e \<Rightarrow> Inl e
                 | Inr (a, rest) \<Rightarrow>
                     if next_is TRParen rest then after_atom a (tl rest) else Inl SyntaxError))
           else
             (case simple_atom (hd ts) of
                None \<Rightarrow> Inl SyntaxError
              | Some a \<Rightarrow> after_atom a (tl ts))))"

text \<open>
  Evaluation with Python's short circuit: \<open>and\<close> returns its left operand when that is
  false, \<open>or\<close> when it is true, and the right operand is then not evaluated. A name is
  looked up in the scope of \<open>evaluate\<close> when it is evaluated; the scope is not modelled.
\<close>

fun eval_bexp :: "bexp \<Rightarrow> pyerr + pyval" where
  "eval_bexp (Const v) = Inr v"
| "eval_bexp (Name x) = Inl Unmodelled"
| "eval_bexp (Not a) =
     (case eval_bexp a of Inl e \<Rightarrow> Inl e | Inr v \<Rightarrow> Inr (PBool (\<not> truthy v)))"
| "eval_bexp (And a b) =
     (case eval_bexp a of Inl e \<Rightarrow> Inl e | Inr v \<Rightarrow> if truthy v then eval_bexp b else Inr v)"
| "eval_bexp (Or a b) =
     (case eval_bexp a of Inl e \<Rightarrow> Inl e | Inr v \<Rightarrow> if truthy v then Inr v else eval_bexp b)"

definition py_eval :: "string \<Rightarrow> pyerr + pyval" where
  "py_eval s =
     (case tokenize s of
        Inl e \<Rightarrow> Inl e
      | Inr ts \<Rightarrow>
          (case parse (6 * length ts + 6) OrTest ts of
             Inl e \<Rightarrow> Inl e
           | Inr (a, rest) \<Rightarrow> if rest = [] then eval_bexp a else Inl SyntaxError))"

subsection \<open>Rule\<close>

text \<open>
  \<open>Rule.evaluate\<close>: the placeholders are replaced from the highest index down, then the
  text is evaluated.
\<close>

definition substitute :: "string \<Rightarrow> bool list \<Rightarrow> string" where
  "substitute evaluator conditions =
     fold (\<lambda>(idx, condition) ev. replace ev (str_nat idx) (str_bool condition))
          (rev (enumerate 0 conditions)) evaluator"

definition evaluate :: "Rule \<Rightarrow> bool list \<Rightarrow> pyerr + pyval" where
  "evaluate self conditions = py_eval (substitute (r_evaluator self) conditions)"

text \<open>
  \<open>self.rename[domain]\<close> in \<open>rename_domains\<close> subscripts the dictionary with the Domain
  object, not with its type. \<open>Domain\<close> defines \<open>__eq__\<close> and no \<open>__hash__\<close>, which makes
  its instances unhashable, so the subscript raises TypeError whatever the dictionary
  holds.
\<close>

definition rename_getitem :: "(string \<times> string) list \<Rightarrow> Domain \<Rightarrow> pyerr + string" where
  "rename_getitem rename domain = Inl TypeError"

fun rename_loop :: "(string \<times> string) list \<Rightarrow> Domain list \<Rightarrow> pyerr + Domain list" where
  "rename_loop rename [] = Inr []"
| "rename_loop rename (domain # rest) =
     (if d_type domain \<in> fst ` set rename then
        (case rename_getitem rename domain of
           Inl e \<Rightarrow> Inl e
         | Inr t \<Rightarrow>
             (case rename_loop rename rest of
                Inl e \<Rightarrow> Inl e
              | Inr rest' \<Rightarrow> Inr (domain\<lparr>d_type := t\<rparr> # rest')))
      else
        (case rename_loop rename rest of
           Inl e \<Rightarrow> Inl e
         | Inr rest' \<Rightarrow> Inr (domain # rest')))"

definition rename_domains :: "Rule \<Rightarrow> Domain list \<Rightarrow> pyerr + Domain list" where
  "rename_domains self domains =
     (if r_rename self = [] then Inr domains else rename_loop (r_rename self) domains)"

definition valid_family :: "Rule \<Rightarrow> Domain \<Rightarrow> bool" where
  "valid_family self domain =
     (case map_of (r_filters self) (d_type domain) of
        Some families \<Rightarrow> d_domain domain \<in> set families
      | None \<Rightarrow> True)"

text \<open>
  The inner loop of \<open>satisfied_by\<close>: the first domain that is not in \<open>seen\<close>, has the
  required type and a valid family. \<open>domain in seen\<close> compares with \<open>Domain.__eq__\<close>,
  field by field.
\<close>

fun find_match :: "Rule \<Rightarrow> string \<Rightarrow> Domain list \<Rightarrow> Domain list \<Rightarrow> Domain option" where
  "find_match self rule_domain seen [] = None"
| "find_match self rule_domain seen (domain # rest) =
     (if domain \<in> set seen then find_match self rule_domain seen rest
      else if d_type domain = rule_domain \<and> valid_family self domain then Some domain
      else find_match self rule_domain seen rest)"

text \<open>The outer loop: \<open>seen\<close> and \<open>conditions\<close> grow by appending.\<close>

fun match_loop ::
  "Rule \<Rightarrow> Domain list \<Rightarrow> string list \<Rightarrow> Domain list \<Rightarrow> bool list \<Rightarrow> Domain list \<times> bool list" where
  "match_loop self domains [] seen conditions = (seen, conditions)"
| "match_loop self domains (rule_domain # rest) seen conditions =
     (case find_match self rule_domain seen domains of
        Some domain \<Rightarrow> match_loop self domains rest (seen @ [domain]) (conditions @ [True])
      | None \<Rightarrow> match_loop self domains rest seen (conditions @ [False]))"

definition satisfied_by :: "Rule \<Rightarrow> Domain list \<Rightarrow> pyerr + pyval" where
  "satisfied_by self domains =
     evaluate self (snd (match_loop self domains (r_domains self) [] []))"

subsection \<open>traverse_graph\<close>

text \<open>
  A rule graph is a list of nodes; a node is a rule name or a dictionary from rule names
  to the graphs of their children. A dictionary keeps the order of its items.
\<close>

datatype node = Leaf string | Sub "(string \<times> node list) list"

text \<open>
  \<open>traverse_graph\<close> on a list (\<open>traverse_list\<close>, the branch \<open>isinstance(graph, list)\<close>)
  and on a dictionary (\<open>traverse_dict\<close>). The domains are passed on as
  \<open>rename_domains\<close> leaves them; \<open>rules[node]\<close> raises KeyError for a missing name.
\<close>

fun traverse_list ::
    "node list \<Rightarrow> (string \<rightharpoonup> Rule) \<Rightarrow> Domain list \<Rightarrow> string list
     \<Rightarrow> pyerr + (string list \<times> Domain list)"
  and traverse_dict ::
    "(string \<times> node list) list \<Rightarrow> (string \<rightharpoonup> Rule) \<Rightarrow> Domain list \<Rightarrow> string list
     \<Rightarrow> pyerr + (string list \<times> Domain list)"
where
  "traverse_list [] rules domains classifiers = Inr (classifiers, domains)"
| "traverse_list (Sub items # rest) rules domains classifiers =
     (case traverse_dict items rules domains classifiers of
        Inl e \<Rightarrow> Inl e
      | Inr (classifiers', domains') \<Rightarrow>
          if classifiers' \<noteq> [] then Inr (classifiers', domains')
          else traverse_list rest rules domains' classifiers')"
| "traverse_list (Leaf name # rest) rules domains classifiers =
     (case rules name of
        None \<Rightarrow> Inl KeyError
      | Some rule \<Rightarrow>
          (case satisfied_by rule domains of
             Inl e \<Rightarrow> Inl e
           | Inr v \<Rightarrow>
               if truthy v then
                 (case rename_domains rule domains of
                    Inl e \<Rightarrow> Inl e
                  | Inr domains' \<Rightarrow> Inr (classifiers @ [name], domains'))
               else traverse_list rest rules domains classifiers))"
| "traverse_dict [] rules domains classifiers = Inr (classifiers, domains)"
| "traverse_dict ((name, children) # rest) rules domains classifiers =
     (case rules name of
        None \<Rightarrow> Inl KeyError
      | Some rule \<Rightarrow>
          (case satisfied_by rule domains of
             Inl e \<Rightarrow> Inl e
           | Inr v \<Rightarrow>
               if truthy v then
                 (case rename_domains rule domains of
                    Inl e \<Rightarrow> Inl e
                  | Inr domains' \<Rightarrow> traverse_list children rules domains' (classifiers @ [name]))
               else traverse_dict rest rules domains classifiers))"

text \<open>\<open>RuleGraph.classify\<close>: the traversal from the top of the graph, with no classifiers.\<close>

definition classify :: "node list \<Rightarrow> (string \<rightharpoonup> Rule) \<Rightarrow> Domain list \<Rightarrow> pyerr + string list" where
  "classify graph rules domains =
     (case traverse_list graph rules domains [] of
        Inl e \<Rightarrow> Inl e
      | Inr (classifiers, domains') \<Rightarrow> Inr classifiers)"

subsection \<open>satisfied_by on a store of Domain objects\<close>

text \<open>
  To state what \<open>satisfied_by\<close> does to its argument, the same code is modelled on a
  store: the Domain objects live at references, and the list passed as \<open>domains\<close> holds
  references. Every function returns the store it leaves behind. The list is read by
  index, as Python's list iterator does.
\<close>

type_synonym ref = nat

record store =
  objects :: "ref \<Rightarrow> Domain"
  domains_list :: "ref list"

definition valid_family_st :: "Rule \<Rightarrow> ref \<Rightarrow> store \<Rightarrow> bool \<times> store" where
  "valid_family_st self domain s =
     (case map_of (r_filters self) (d_type (objects s domain)) of
        Some families \<Rightarrow> (d_domain (objects s domain) \<in> set families, s)
      | None \<Rightarrow> (True, s))"

text \<open>
  \<open>domain in seen\<close> on references: an element of \<open>seen\<close> that is the same object, or an
  equal one by \<open>Domain.__eq__\<close>.
\<close>

definition in_seen :: "store \<Rightarrow> ref \<Rightarrow> ref list \<Rightarrow> bool" where
  "in_seen s domain seen =
     (domain \<in> set seen \<or> objects s domain \<in> set (map (objects s) seen))"

function find_match_st ::
  "Rule \<Rightarrow> string \<Rightarrow> ref list \<Rightarrow> nat \<Rightarrow> store \<Rightarrow> ref option \<times> store" where
  "find_match_st self rule_domain seen i s =
     (if i < length (domains_list s) then
        (let domain = domains_list s ! i in
         if in_seen s domain seen then find_match_st self rule_domain seen (i + 1) s
         else if d_type (objects s domain) = rule_domain then
           (let (ok, s') = valid_family_st self domain s
            in if ok then (Some domain, s')
               else find_match_st self rule_domain seen (i + 1) s')
         else find_match_st self rule_domain seen (i + 1) s)
      else (None, s))"
  by pat_completeness auto
termination
  by (relation "measure (\<lambda>(self, rule_domain, seen, i, s). length (domains_list s) - i)")
     (auto simp: valid_family_st_def split: option.splits)

declare find_match_st.simps [simp del]

fun match_loop_st ::
  "Rule \<Rightarrow> string list \<Rightarrow> ref list \<Rightarrow> bool list \<Rightarrow> store \<Rightarrow> (ref list \<times> bool list) \<times> store" where
  "match_loop_st self [] seen conditions s = ((seen, conditions), s)"
| "match_loop_st self (rule_domain # rest) seen conditions s =
     (case find_match_st self rule_domain seen 0 s of
        (Some domain, s') \<Rightarrow> match_loop_st self rest (seen @ [domain]) (conditions @ [True]) s'
      | (None, s') \<Rightarrow> match_loop_st self rest seen (conditions @ [False]) s')"

definition satisfied_by_st :: "Rule \<Rightarrow> store \<Rightarrow> (pyerr + pyval) \<times> store" where
  "satisfied_by_st self s =
     (case match_loop_st self (r_domains self) [] [] s of
        ((seen, conditions), s') \<Rightarrow> (evaluate self conditions, s'))"

text \<open>
  The rule names that stand at one level of a graph: the leaves of the list and the keys
  of its dictionaries. These are the rules the traversal evaluates when none of them is
  satisfied.
\<close>

fun node_names :: "node \<Rightarrow> string list" where
  "node_names (Leaf name) = [name]"
| "node_names (Sub items) = map fst items"

definition level_names :: "node list \<Rightarrow> string list" where
  "level_names graph = concat (map node_names graph)"

text \<open>
  The pairwise different elements of a list, in the order of their first occurrence:
  every element that equals an earlier one is left out.
\<close>

function first_occurrences :: "'a list \<Rightarrow> 'a list" where
  "first_occurrences [] = []"
| "first_occurrences (x # xs) = x # first_occurrences (filter (\<lambda>y. y \<noteq> x) xs)"
  by pat_completeness auto
termination
  by (relation "measure length") (auto simp: less_Suc_eq_le)

section \<open>Clustering of overlapping hits\<close>

lemma inner_loop_eq:
  "inner_loop threshold domains current j grp
   = (grp @ takeWhile (\<lambda>d. hits_overlap current d threshold) (drop j domains),
      if j < length domains
      then [grp @ takeWhile (\<lambda>d. hits_overlap current d threshold) (drop j domains)]
      else [])"
proof (induction threshold domains current j grp rule: inner_loop.induct)
  case (1 threshold domains current j grp)
  let ?p = "\<lambda>d. hits_overlap current d threshold"
  show ?case
  proof (cases "j < length domains")
    case False
    then show ?thesis by (subst inner_loop.simps) simp
  next
    case inb: True
    then have dr: "drop j domains = domains ! j # drop (Suc j) domains"
      by (simp add: Cons_nth_drop_Suc)
    show ?thesis
    proof (cases "hits_overlap current (domains ! j) threshold")
      case False
      with inb dr show ?thesis by (subst inner_loop.simps) simp
    next
      case True
      note ih = 1 [OF inb refl True refl refl]
      have unf: "inner_loop threshold domains current j grp
            = (case inner_loop threshold domains current (j + 1) (grp @ [domains ! j]) of
                 (g, ys) \<Rightarrow>
                   (g, (if j = length domains - 1 then [grp @ [domains ! j]] else []) @ ys))"
        using inb True by (subst inner_loop.simps) (simp add: Let_def)
      show ?thesis
      proof (cases "Suc j < length domains")
        case True
        then have "j \<noteq> length domains - 1" by simp
        with True inb dr \<open>hits_overlap current (domains ! j) threshold\<close> show ?thesis
          unfolding unf ih by simp
      next
        case False
        with inb have last: "j = length domains - 1" and e: "drop (Suc j) domains = []"
          by simp_all
        from False inb dr e \<open>hits_overlap current (domains ! j) threshold\<close> show ?thesis
          unfolding unf ih using last by simp
      qed
    qed
  qed
qed

lemma outer_loop_anchor_groups:
  "outer_loop threshold domains i = anchor_groups threshold (drop i domains)"
proof (induction threshold domains i rule: outer_loop.induct)
  case (1 threshold domains i)
  let ?p = "\<lambda>d. hits_overlap (domains ! i) d threshold"
  let ?g = "[domains ! i] @ takeWhile ?p (drop (i + 1) domains)"
  show ?case
  proof (cases "i < length domains")
    case False
    then show ?thesis by (subst outer_loop.simps) simp
  next
    case inb: True
    then have dr: "drop i domains = domains ! i # drop (i + 1) domains"
      by (simp add: Cons_nth_drop_Suc)
    show ?thesis
    proof (cases "i = length domains - 1")
      case True
      with inb have "drop (i + 1) domains = []" by simp
      with inb True dr show ?thesis by (subst outer_loop.simps) (simp add: Let_def)
    next
      case False
      with inb have lt: "i + 1 < length domains" by simp
      have il: "inner_loop threshold domains (domains ! i) (i + 1) [domains ! i] = (?g, [?g])"
        using lt by (simp only: inner_loop_eq if_True)
      have dw: "drop (i + length ?g) domains = dropWhile ?p (drop (i + 1) domains)"
      proof -
        have "drop (i + length ?g) domains
              = drop (length (takeWhile ?p (drop (i + 1) domains))) (drop (i + 1) domains)"
          by (simp add: add.commute)
        then show ?thesis by (simp only: dropWhile_eq_drop)
      qed
      have ih: "outer_loop threshold domains (i + length ?g)
                = anchor_groups threshold (drop (i + length ?g) domains)"
        by (rule 1 [OF inb refl refl False il [symmetric] refl])
      have "outer_loop threshold domains i = [?g] @ outer_loop threshold domains (i + length ?g)"
        using inb False by (subst outer_loop.simps) (simp only: il Let_def if_True if_False split)
      then show ?thesis
        unfolding ih dw dr by simp
    qed
  qed
qed

lemma concat_anchor_groups: "concat (anchor_groups threshold ds) = ds"
  by (induction threshold ds rule: anchor_groups.induct) simp_all

lemma sum_length_anchor_groups:
  "sum_list (map length (anchor_groups threshold ds)) = length ds"
proof -
  have "length (concat (anchor_groups threshold ds)) = length ds"
    by (simp only: concat_anchor_groups)
  then show ?thesis by (simp add: length_concat)
qed

lemma group_overlapping_hits_anchor_groups:
  "group_overlapping_hits domains threshold
   = anchor_groups threshold (sort_key d_start domains)"
  by (simp add: group_overlapping_hits_def outer_loop_anchor_groups)

text \<open>
  C7. For every list of hits and every threshold, the sizes of the groups yielded by
  \<open>group_overlapping_hits\<close> add up to the length of the input, the groups concatenated in
  the order they are yielded are the input sorted by start (every element once), and each
  group is its anchor followed by the run of elements that overlap the anchor: the test
  is always against the first element of the group, never against a later member.
\<close>

theorem group_overlapping_hits_partition:
  "sum_list (map length (group_overlapping_hits domains threshold)) = length domains
   \<and> concat (group_overlapping_hits domains threshold) = sort_key d_start domains
   \<and> group_overlapping_hits domains threshold
       = anchor_groups threshold (sort_key d_start domains)"
  by (simp add: group_overlapping_hits_anchor_groups concat_anchor_groups
      sum_length_anchor_groups)

lemma hits_overlap_degenerate:
  assumes "d_start a = d_end a \<or> d_start b = d_end b"
  shows "hits_overlap a b threshold"
proof -
  have "(0::rat) \<le> of_int (max 0 (min (d_end a) (d_end b) - max (d_start a) (d_start b)))"
    by simp
  with assms show ?thesis
    unfolding hits_overlap_def Let_def by auto
qed

text \<open>
  C10. When one of two hits is degenerate (its start equals its end), \<open>hits_overlap\<close> is
  true for every non-negative threshold, whatever the positions of the two hits.
  Consequently the inner loop of \<open>group_overlapping_hits\<close> appends the hit it tests to
  the group of the anchor, and a degenerate hit that follows the anchor in a sorted list
  is in the anchor's group.
\<close>

theorem degenerate_hit_absorbed:
  assumes "d_start a = d_end a \<or> d_start b = d_end b" and "0 \<le> threshold"
  shows "hits_overlap a b threshold
    \<and> (\<forall>domains j grp. j < length domains \<and> domains ! j = b \<longrightarrow>
          take (Suc (length grp)) (fst (inner_loop threshold domains a j grp)) = grp @ [b])
    \<and> (\<forall>rest. sorted (map d_start (a # b # rest)) \<longrightarrow>
          take 2 (hd (group_overlapping_hits (a # b # rest) threshold)) = [a, b])"
proof (intro conjI allI impI)
  show ov: "hits_overlap a b threshold"
    using assms(1) by (rule hits_overlap_degenerate)
  show "take (Suc (length grp)) (fst (inner_loop threshold domains a j grp)) = grp @ [b]"
    if h: "j < length domains \<and> domains ! j = b" for domains j grp
  proof -
    from h have "drop j domains = b # drop (Suc j) domains"
      by (auto simp: Cons_nth_drop_Suc)
    with ov show ?thesis by (simp add: inner_loop_eq)
  qed
  show "take 2 (hd (group_overlapping_hits (a # b # rest) threshold)) = [a, b]"
    if s: "sorted (map d_start (a # b # rest))" for rest
  proof -
    from s have "sort_key d_start (a # b # rest) = a # b # rest"
      by (rule sort_key_id_if_sorted)
    with ov show ?thesis
      by (simp add: group_overlapping_hits_anchor_groups)
  qed
qed

theorem degenerate_hit_absorbed_witness:
  "hits_overlap \<lparr>d_type = ''KS'', d_domain = ''PKS_KS'', d_start = 1, d_end = 100\<rparr>
     \<lparr>d_type = ''AT'', d_domain = ''PKS_AT'', d_start = 500, d_end = 500\<rparr> (9 / 10)
   \<and> take 2 (hd (group_overlapping_hits
        [\<lparr>d_type = ''KS'', d_domain = ''PKS_KS'', d_start = 1, d_end = 100\<rparr>,
         \<lparr>d_type = ''AT'', d_domain = ''PKS_AT'', d_start = 500, d_end = 500\<rparr>] (9 / 10)))
      = [\<lparr>d_type = ''KS'', d_domain = ''PKS_KS'', d_start = 1, d_end = 100\<rparr>,
         \<lparr>d_type = ''AT'', d_domain = ''PKS_AT'', d_start = 500, d_end = 500\<rparr>]"
  using degenerate_hit_absorbed
    [of "\<lparr>d_type = ''KS'', d_domain = ''PKS_KS'', d_start = 1, d_end = 100\<rparr>"
        "\<lparr>d_type = ''AT'', d_domain = ''PKS_AT'', d_start = 500, d_end = 500\<rparr>" "9 / 10"]
  by simp

section \<open>Adjacency relabelling\<close>

lemma rename_parent_loop_Cons:
  "1 \<le> index \<Longrightarrow>
   rename_parent_loop (x # domains) parent child (Suc index)
   = x # rename_parent_loop domains parent child index"
proof (induction domains parent child index rule: rename_parent_loop.induct)
  case (1 domains parent child index)
  from \<open>1 \<le> index\<close> obtain k where k: "index = Suc k" by (cases index) auto
  show ?case
  proof (cases "index < length domains")
    case False
    then show ?thesis
      by (subst (1 2) rename_parent_loop.simps) simp
  next
    case inb: True
    let ?one = "domains ! (index - 1)"
    let ?two = "domains ! index"
    show ?thesis
    proof (cases "hits_overlap ?one ?two default_threshold
                  \<and> (d_type ?one, d_type ?two) = (parent, child)")
      case True
      have p: "pop ((x # domains)[Suc index - 1 := ?one\<lparr>d_type := child\<rparr>]) (Suc index)
               = x # pop (domains[index - 1 := ?one\<lparr>d_type := child\<rparr>]) index"
        using k by (simp add: pop_def)
      have "rename_parent_loop (x # domains) parent child (Suc index)
            = rename_parent_loop
                (pop ((x # domains)[Suc index - 1 := ?one\<lparr>d_type := child\<rparr>]) (Suc index))
                parent child (Suc index)"
        using inb True k by (subst rename_parent_loop.simps) (simp add: Let_def)
      also have "\<dots> = x # rename_parent_loop
                           (pop (domains[index - 1 := ?one\<lparr>d_type := child\<rparr>]) index)
                           parent child index"
        unfolding p using 1(1) [OF inb refl refl True] \<open>1 \<le> index\<close> by simp
      also have "\<dots> = x # rename_parent_loop domains parent child index"
        using inb True by (subst (2) rename_parent_loop.simps) (simp add: Let_def)
      finally show ?thesis .
    next
      case False
      have "rename_parent_loop (x # domains) parent child (Suc index)
            = rename_parent_loop (x # domains) parent child (Suc index + 1)"
        using inb False k by (subst rename_parent_loop.simps) (auto simp: Let_def)
      also have "\<dots> = x # rename_parent_loop domains parent child (index + 1)"
        using 1(2) [OF inb refl refl False] by simp
      also have "\<dots> = x # rename_parent_loop domains parent child index"
        using inb False by (subst (2) rename_parent_loop.simps) (auto simp: Let_def)
      finally show ?thesis .
    qed
  qed
qed

lemma rename_parent_domain_merge_step:
  assumes "hits_overlap one two default_threshold" "d_type one = parent" "d_type two = child"
  shows "rename_parent_domain (one # two # rest) parent child
         = rename_parent_domain (one\<lparr>d_type := child\<rparr> # rest) parent child"
  unfolding rename_parent_domain_def
  using assms by (subst rename_parent_loop.simps) (simp add: Let_def pop_def)

lemma rename_parent_domain_keep_step:
  assumes "\<not> (hits_overlap one two default_threshold \<and> d_type one = parent \<and> d_type two = child)"
  shows "rename_parent_domain (one # two # rest) parent child
         = one # rename_parent_domain (two # rest) parent child"
proof -
  have "rename_parent_loop (one # two # rest) parent child 1
        = rename_parent_loop (one # two # rest) parent child (Suc 1)"
    using assms by (subst rename_parent_loop.simps) (auto simp: Let_def)
  also have "\<dots> = one # rename_parent_loop (two # rest) parent child 1"
    by (rule rename_parent_loop_Cons) simp
  finally show ?thesis by (simp add: rename_parent_domain_def)
qed

lemma rename_parent_domain_short:
  "rename_parent_domain [] parent child = []"
  "rename_parent_domain [x] parent child = [x]"
  unfolding rename_parent_domain_def
  by (subst rename_parent_loop.simps, simp)+

lemma rename_parent_domain_head_child:
  assumes "d_type x \<noteq> parent"
  shows "rename_parent_domain (x # rest) parent child = x # rename_parent_domain rest parent child"
proof (cases rest)
  case Nil
  then show ?thesis by (simp add: rename_parent_domain_short)
next
  case (Cons y ys)
  with assms show ?thesis
    by (simp add: rename_parent_domain_keep_step)
qed

text \<open>
  C8, as the code has it. The hits \<open>C 1-200\<close> and \<open>E 180-205\<close> overlap by 20, which is
  less than nine tenths of either length (179.1 and 22.5), so they do not overlap at the
  default threshold and \<open>rename_parent_domain\<close> returns them unchanged: they do not
  collapse to one hit.
\<close>

theorem rename_parent_domain_example_counterexample:
  "rename_parent_domain
     [\<lparr>d_type = ''C'', d_domain = ''condensation'', d_start = 1, d_end = 200\<rparr>,
      \<lparr>d_type = ''E'', d_domain = ''NRPS-para261'', d_start = 180, d_end = 205\<rparr>] ''C'' ''E''
   = [\<lparr>d_type = ''C'', d_domain = ''condensation'', d_start = 1, d_end = 200\<rparr>,
      \<lparr>d_type = ''E'', d_domain = ''NRPS-para261'', d_start = 180, d_end = 205\<rparr>]
   \<and> rename_parent_domain
     [\<lparr>d_type = ''C'', d_domain = ''condensation'', d_start = 1, d_end = 200\<rparr>,
      \<lparr>d_type = ''E'', d_domain = ''NRPS-para261'', d_start = 180, d_end = 205\<rparr>] ''C'' ''E''
   \<noteq> [\<lparr>d_type = ''E'', d_domain = ''condensation'', d_start = 1, d_end = 200\<rparr>]"
  by (simp add: rename_parent_domain_keep_step rename_parent_domain_short
      hits_overlap_def default_threshold_def Let_def)

text \<open>
  C8, amended. For every hit sequence of at least two hits, parent and child label:
  \<^item> when the first two hits overlap at the default threshold and are labelled parent and
    child, the first is relabelled with the child label, the second is removed and the
    index is not advanced: the result is that of the merge on the relabelled hit followed
    by the remaining hits, whose first pair is tested next;
  \<^item> when, in addition, parent and child differ, the relabelled hit is not merged again:
    the result is the relabelled hit followed by the result of the merge on the remaining
    hits;
  \<^item> when the first two hits do not merge, the result is the first hit followed by the
    result of the merge on the sequence from the second hit on.
  The hits \<open>C 1-200\<close>, \<open>E 180-205\<close> are returned unchanged, and the hits \<open>C 1-200\<close>,
  \<open>E 80-200\<close> of the docstring collapse to the single hit \<open>E 1-200\<close>.
\<close>

theorem rename_parent_domain_merge:
  "(hits_overlap one two default_threshold \<and> d_type one = parent \<and> d_type two = child \<longrightarrow>
      rename_parent_domain (one # two # rest) parent child
      = rename_parent_domain (one\<lparr>d_type := child\<rparr> # rest) parent child
      \<and> (parent \<noteq> child \<longrightarrow>
           rename_parent_domain (one # two # rest) parent child
           = one\<lparr>d_type := child\<rparr> # rename_parent_domain rest parent child))
   \<and> (\<not> (hits_overlap one two default_threshold \<and> d_type one = parent \<and> d_type two = child)
        \<longrightarrow> rename_parent_domain (one # two # rest) parent child
            = one # rename_parent_domain (two # rest) parent child)
   \<and> rename_parent_domain
        [\<lparr>d_type = ''C'', d_domain = ''condensation'', d_start = 1, d_end = 200\<rparr>,
         \<lparr>d_type = ''E'', d_domain = ''NRPS-para261'', d_start = 180, d_end = 205\<rparr>] ''C'' ''E''
      = [\<lparr>d_type = ''C'', d_domain = ''condensation'', d_start = 1, d_end = 200\<rparr>,
         \<lparr>d_type = ''E'', d_domain = ''NRPS-para261'', d_start = 180, d_end = 205\<rparr>]
   \<and> rename_parent_domain
        [\<lparr>d_type = ''C'', d_domain = ''condensation'', d_start = 1, d_end = 200\<rparr>,
         \<lparr>d_type = ''E'', d_domain = ''NRPS-para261'', d_start = 80, d_end = 200\<rparr>] ''C'' ''E''
      = [\<lparr>d_type = ''E'', d_domain = ''condensation'', d_start = 1, d_end = 200\<rparr>]"
proof (intro conjI impI)
  assume m: "hits_overlap one two default_threshold \<and> d_type one = parent \<and> d_type two = child"
  then show step: "rename_parent_domain (one # two # rest) parent child
      = rename_parent_domain (one\<lparr>d_type := child\<rparr> # rest) parent child"
    by (simp add: rename_parent_domain_merge_step)
  assume "parent \<noteq> child"
  then have "d_type (one\<lparr>d_type := child\<rparr>) \<noteq> parent" by simp
  then have "rename_parent_domain (one\<lparr>d_type := child\<rparr> # rest) parent child
             = one\<lparr>d_type := child\<rparr> # rename_parent_domain rest parent child"
    by (rule rename_parent_domain_head_child)
  with step show "rename_parent_domain (one # two # rest) parent child
           = one\<lparr>d_type := child\<rparr> # rename_parent_domain rest parent child"
    by simp
next
  assume "\<not> (hits_overlap one two default_threshold \<and> d_type one = parent \<and> d_type two = child)"
  then show "rename_parent_domain (one # two # rest) parent child
            = one # rename_parent_domain (two # rest) parent child"
    by (rule rename_parent_domain_keep_step)
next
  show "rename_parent_domain
        [\<lparr>d_type = ''C'', d_domain = ''condensation'', d_start = 1, d_end = 200\<rparr>,
         \<lparr>d_type = ''E'', d_domain = ''NRPS-para261'', d_start = 180, d_end = 205\<rparr>] ''C'' ''E''
      = [\<lparr>d_type = ''C'', d_domain = ''condensation'', d_start = 1, d_end = 200\<rparr>,
         \<lparr>d_type = ''E'', d_domain = ''NRPS-para261'', d_start = 180, d_end = 205\<rparr>]"
    by (simp add: rename_parent_domain_keep_step rename_parent_domain_short
        hits_overlap_def default_threshold_def Let_def)
next
  have ov: "hits_overlap \<lparr>d_type = ''C'', d_domain = ''condensation'', d_start = 1, d_end = 200\<rparr>
     \<lparr>d_type = ''E'', d_domain = ''NRPS-para261'', d_start = 80, d_end = 200\<rparr> default_threshold"
    by (simp add: hits_overlap_def default_threshold_def Let_def)
  show "rename_parent_domain
        [\<lparr>d_type = ''C'', d_domain = ''condensation'', d_start = 1, d_end = 200\<rparr>,
         \<lparr>d_type = ''E'', d_domain = ''NRPS-para261'', d_start = 80, d_end = 200\<rparr>] ''C'' ''E''
      = [\<lparr>d_type = ''E'', d_domain = ''condensation'', d_start = 1, d_end = 200\<rparr>]"
    using ov by (simp add: rename_parent_domain_merge_step rename_parent_domain_short)
qed

text \<open>
  The hits \<open>C 1-200\<close>, \<open>E 80-200\<close>, \<open>E 81-200\<close>: the first pair is merged, the merged hit
  is then labelled \<open>E\<close> and the third hit stays. The pair \<open>C 1-200\<close>, \<open>E 180-205\<close> is
  not merged.
\<close>

theorem rename_parent_domain_merge_witness:
  "hits_overlap \<lparr>d_type = ''C'', d_domain = ''condensation'', d_start = 1, d_end = 200\<rparr>
     \<lparr>d_type = ''E'', d_domain = ''NRPS-para261'', d_start = 80, d_end = 200\<rparr> default_threshold
   \<and> ''C'' \<noteq> ''E''
   \<and> rename_parent_domain
       [\<lparr>d_type = ''C'', d_domain = ''condensation'', d_start = 1, d_end = 200\<rparr>,
        \<lparr>d_type = ''E'', d_domain = ''NRPS-para261'', d_start = 80, d_end = 200\<rparr>,
        \<lparr>d_type = ''E'', d_domain = ''NRPS-para261'', d_start = 81, d_end = 200\<rparr>] ''C'' ''E''
     = [\<lparr>d_type = ''E'', d_domain = ''condensation'', d_start = 1, d_end = 200\<rparr>,
        \<lparr>d_type = ''E'', d_domain = ''NRPS-para261'', d_start = 81, d_end = 200\<rparr>]
   \<and> \<not> hits_overlap \<lparr>d_type = ''C'', d_domain = ''condensation'', d_start = 1, d_end = 200\<rparr>
     \<lparr>d_type = ''E'', d_domain = ''NRPS-para261'', d_start = 180, d_end = 205\<rparr> default_threshold
   \<and> rename_parent_domain
       [\<lparr>d_type = ''C'', d_domain = ''condensation'', d_start = 1, d_end = 200\<rparr>,
        \<lparr>d_type = ''E'', d_domain = ''NRPS-para261'', d_start = 180, d_end = 205\<rparr>,
        \<lparr>d_type = ''A'', d_domain = ''A_NRPS'', d_start = 300, d_end = 400\<rparr>] ''C'' ''E''
     = \<lparr>d_type = ''C'', d_domain = ''condensation'', d_start = 1, d_end = 200\<rparr>
       # rename_parent_domain
           [\<lparr>d_type = ''E'', d_domain = ''NRPS-para261'', d_start = 180, d_end = 205\<rparr>,
            \<lparr>d_type = ''A'', d_domain = ''A_NRPS'', d_start = 300, d_end = 400\<rparr>] ''C'' ''E''"
proof -
  have ov: "hits_overlap \<lparr>d_type = ''C'', d_domain = ''condensation'', d_start = 1, d_end = 200\<rparr>
     \<lparr>d_type = ''E'', d_domain = ''NRPS-para261'', d_start = 80, d_end = 200\<rparr> default_threshold"
    by (simp add: hits_overlap_def default_threshold_def Let_def)
  have nov: "\<not> hits_overlap \<lparr>d_type = ''C'', d_domain = ''condensation'', d_start = 1, d_end = 200\<rparr>
     \<lparr>d_type = ''E'', d_domain = ''NRPS-para261'', d_start = 180, d_end = 205\<rparr> default_threshold"
    by (simp add: hits_overlap_def default_threshold_def Let_def)
  show ?thesis
    using ov nov
      rename_parent_domain_merge
        [of "\<lparr>d_type = ''C'', d_domain = ''condensation'', d_start = 1, d_end = 200\<rparr>"
            "\<lparr>d_type = ''E'', d_domain = ''NRPS-para261'', d_start = 80, d_end = 200\<rparr>"
            "''C''" "''E''"
            "[\<lparr>d_type = ''E'', d_domain = ''NRPS-para261'', d_start = 81, d_end = 200\<rparr>]"]
      rename_parent_domain_merge
        [of "\<lparr>d_type = ''C'', d_domain = ''condensation'', d_start = 1, d_end = 200\<rparr>"
            "\<lparr>d_type = ''E'', d_domain = ''NRPS-para261'', d_start = 180, d_end = 205\<rparr>"
            "''C''" "''E''"
            "[\<lparr>d_type = ''A'', d_domain = ''A_NRPS'', d_start = 300, d_end = 400\<rparr>]"]
    by (auto simp: rename_parent_domain_short)
qed

text \<open>
  C5, on the code. A synthase of type \<open>Hybrid\<close> whose domains hold no \<open>C\<close>: the loop that
  looks for the pivot ends with \<open>start\<close> at the index of the last domain, not at the
  length of the list, so the last domain is still relabelled. Here \<open>start\<close> is 1 for two
  domains and \<open>ACP\<close> becomes \<open>T\<close>.
\<close>

theorem rename_nrps_domains_hybrid_no_pivot:
  "rename_nrps_domains
     \<lparr>s_header = ''q1'', s_sequence = ''MKV'',
      s_domains = [\<lparr>d_type = ''KS'', d_domain = ''PKS_KS'', d_start = 1, d_end = 100\<rparr>,
                   \<lparr>d_type = ''ACP'', d_domain = ''PKS_PP'', d_start = 200, d_end = 300\<rparr>],
      s_type = ''Hybrid'', s_subtype = []\<rparr>
   = \<lparr>s_header = ''q1'', s_sequence = ''MKV'',
      s_domains = [\<lparr>d_type = ''KS'', d_domain = ''PKS_KS'', d_start = 1, d_end = 100\<rparr>,
                   \<lparr>d_type = ''T'', d_domain = ''PKS_PP'', d_start = 200, d_end = 300\<rparr>],
      s_type = ''Hybrid'', s_subtype = []\<rparr>
   \<and> find_start 0 0
       [\<lparr>d_type = ''KS'', d_domain = ''PKS_KS'', d_start = 1, d_end = 100\<rparr>,
        \<lparr>d_type = ''ACP'', d_domain = ''PKS_PP'', d_start = 200, d_end = 300\<rparr>] = 1"
  by (simp add: rename_nrps_domains_def relabel_def replace_table_def Let_def
      rename_parent_domain_keep_step rename_parent_domain_short)

section \<open>Matching and renaming\<close>

lemma rename_loop_result:
  "rename_loop rename domains =
     (if \<exists>d \<in> set domains. d_type d \<in> fst ` set rename then Inl TypeError else Inr domains)"
  by (induction domains) (auto simp: rename_getitem_def)

lemma rename_domains_result:
  "rename_domains self domains =
     (if r_rename self \<noteq> [] \<and> (\<exists>d \<in> set domains. d_type d \<in> fst ` set (r_rename self))
      then Inl TypeError else Inr domains)"
  by (simp add: rename_domains_def rename_loop_result)

text \<open>
  C2, on the code. A rule that renames \<open>ACP\<close> to \<open>T\<close>, applied to a hit labelled \<open>ACP\<close>:
  \<open>rename_domains\<close> raises TypeError at the subscript \<open>self.rename[domain]\<close> and no label
  is replaced. A hit list without a label to rename is returned as it is.
\<close>

theorem rename_domains_raises:
  "rename_domains
     \<lparr>r_name = ''NRPS'', r_rename = [(''ACP'', ''T'')], r_domains = [''A''], r_filters = [],
      r_evaluator = ''0''\<rparr>
     [\<lparr>d_type = ''A'', d_domain = ''A_NRPS'', d_start = 1, d_end = 400\<rparr>,
      \<lparr>d_type = ''ACP'', d_domain = ''PKS_PP'', d_start = 450, d_end = 520\<rparr>]
   = Inl TypeError
   \<and> rename_domains
     \<lparr>r_name = ''NRPS'', r_rename = [(''ACP'', ''T'')], r_domains = [''A''], r_filters = [],
      r_evaluator = ''0''\<rparr>
     [\<lparr>d_type = ''A'', d_domain = ''A_NRPS'', d_start = 1, d_end = 400\<rparr>]
   = Inr [\<lparr>d_type = ''A'', d_domain = ''A_NRPS'', d_start = 1, d_end = 400\<rparr>]"
  by (simp add: rename_domains_def rename_getitem_def)


lemma set_first_occurrences: "set (first_occurrences xs) = set xs"
  by (induction xs rule: first_occurrences.induct) auto

lemma distinct_first_occurrences: "distinct (first_occurrences xs)"
  by (induction xs rule: first_occurrences.induct) (auto simp: set_first_occurrences)

lemma length_first_occurrences: "length (first_occurrences xs) = card (set xs)"
  using distinct_card [OF distinct_first_occurrences, of xs]
  by (simp add: set_first_occurrences)

lemma first_occurrences_distinct: "distinct xs \<Longrightarrow> first_occurrences xs = xs"
proof (induction xs)
  case Nil
  show ?case by simp
next
  case (Cons x xs)
  then have "filter (\<lambda>y. y \<noteq> x) xs = xs"
    by (auto simp: filter_id_conv)
  with Cons show ?case by simp
qed










section \<open>Evaluation of rule expressions\<close>

lemma replace_nonempty_absent:
  "\<not> str_contains s old \<Longrightarrow> replace_nonempty s old new = s"
  by (induction s) auto

lemma str_nat_not_Nil: "str_nat n \<noteq> []"
  by (subst str_nat.simps) simp

lemma replace_absent:
  "\<not> str_contains s (str_nat idx) \<Longrightarrow> replace s (str_nat idx) new = s"
  by (simp add: replace_def str_nat_not_Nil replace_nonempty_absent)

lemma fold_replace_absent:
  "\<forall>p \<in> set ps. \<not> str_contains e (str_nat (fst p)) \<Longrightarrow>
   fold (\<lambda>(idx, condition) ev. replace ev (str_nat idx) (str_bool condition)) ps e = e"
  by (induction ps) (auto simp: replace_absent)

lemma substitute_absent:
  assumes "\<forall>idx < length conditions. \<not> str_contains e (str_nat idx)"
  shows "substitute e conditions = e"
proof -
  have "\<forall>p \<in> set (rev (enumerate 0 conditions)). \<not> str_contains e (str_nat (fst p))"
    using assms by (auto simp: in_set_enumerate_eq)
  then show ?thesis
    unfolding substitute_def by (rule fold_replace_absent)
qed

lemma substitute_Nil_conditions: "substitute e [] = e"
  by (simp add: substitute_def)

lemma replace_Nil: "replace [] (str_nat idx) new = []"
  by (simp add: replace_def str_nat_not_Nil)

lemma substitute_empty: "substitute [] conditions = []"
proof -
  have "fold (\<lambda>(idx, condition) ev. replace ev (str_nat idx) (str_bool condition)) ps [] = []"
    for ps :: "(nat \<times> bool) list"
    by (induction ps) (auto simp: replace_Nil)
  then show ?thesis by (simp add: substitute_def)
qed

lemma digit_char_props:
  assumes "d < 10"
  shows "is_digit (digit_char d)" and "digit_val (digit_char d) = d"
    and "(digit_char d = CHR ''0'') = (d = 0)"
proof -
  from assms have "d = 0 \<or> d = 1 \<or> d = 2 \<or> d = 3 \<or> d = 4 \<or> d = 5 \<or> d = 6 \<or> d = 7
      \<or> d = 8 \<or> d = 9"
    by arith
  then show "is_digit (digit_char d)" and "digit_val (digit_char d) = d"
    and "(digit_char d = CHR ''0'') = (d = 0)"
    by (auto simp: digit_char_def is_digit_def digit_val_def)
qed

lemma str_nat_digits: "\<forall>c \<in> set (str_nat n). is_digit c"
proof (induction n rule: str_nat.induct)
  case (1 n)
  show ?case
  proof (cases "n < 10")
    case True
    then show ?thesis
      by (subst str_nat.simps) (simp add: digit_char_props)
  next
    case False
    with 1 show ?thesis
      by (subst str_nat.simps) (simp add: digit_char_props)
  qed
qed

lemma nat_of_digits_snoc:
  "nat_of_digits (ds @ [c]) = 10 * nat_of_digits ds + digit_val c"
  by (simp add: nat_of_digits_def)

lemma nat_of_digits_str_nat: "nat_of_digits (str_nat n) = n"
proof (induction n rule: str_nat.induct)
  case (1 n)
  show ?case
  proof (cases "n < 10")
    case True
    then show ?thesis
      by (subst str_nat.simps) (simp add: nat_of_digits_def digit_char_props)
  next
    case False
    with 1 have "nat_of_digits (str_nat (n div 10)) = n div 10" by simp
    with False show ?thesis
      by (subst str_nat.simps) (simp add: nat_of_digits_snoc digit_char_props)
  qed
qed

lemma hd_str_nat: "(hd (str_nat n) = CHR ''0'') = (n = 0)"
proof (induction n rule: str_nat.induct)
  case (1 n)
  show ?case
  proof (cases "n < 10")
    case True
    then show ?thesis
      by (subst str_nat.simps) (simp add: digit_char_props)
  next
    case False
    then have "n div 10 \<noteq> 0" by simp
    with 1 False have "hd (str_nat (n div 10)) \<noteq> CHR ''0''" by simp
    with False show ?thesis
      by (subst str_nat.simps) (simp add: str_nat_not_Nil)
  qed
qed

lemma length_str_nat_0: "length (str_nat 0) = 1"
  by (subst str_nat.simps) simp

lemma number_token_str_nat: "number_token (str_nat n) = Inr (TInt n)"
proof (cases "n = 0")
  case True
  then show ?thesis
    by (simp add: number_token_def length_str_nat_0 nat_of_digits_str_nat)
next
  case False
  then have "hd (str_nat n) \<noteq> CHR ''0''" by (simp add: hd_str_nat)
  then show ?thesis
    by (simp add: number_token_def nat_of_digits_str_nat)
qed

lemma tokenize_digits:
  assumes "ds \<noteq> []" and "\<forall>c \<in> set ds. is_digit c"
  shows "tokenize ds = cons_token (number_token ds) (Inr [])"
proof -
  from assms(1) obtain c cs where ds: "ds = c # cs" by (cases ds) auto
  have tw: "takeWhile is_digit (c # cs) = c # cs" and dw: "dropWhile is_digit (c # cs) = []"
    using assms(2) ds by auto
  have c: "is_digit c" using assms(2) ds by simp
  then have nb: "c \<noteq> CHR '' ''" "c \<noteq> CHR 0x09" "c \<noteq> CHR ''(''" "c \<noteq> CHR '')''"
    by (auto simp: is_digit_def)
  show ?thesis
    unfolding ds
    by (subst tokenize.simps) (simp only: nb c tw dw Let_def if_True if_False tokenize.simps(1)
        simp_thms)
qed

lemma tokenize_str_nat: "tokenize (str_nat n) = Inr [TInt n]"
  by (simp add: tokenize_digits str_nat_not_Nil str_nat_digits number_token_str_nat
      cons_token_def)

lemma py_eval_str_nat: "py_eval (str_nat n) = Inr (PInt (int n))"
proof -
  have "parse (6 * length [TInt n] + 6) OrTest [TInt n]
        = Inr (Const (PInt (int n)), [])"
    by (simp add: eval_nat_numeral next_is_def after_atom_def)
  then show ?thesis
    by (simp add: py_eval_def tokenize_str_nat)
qed

lemma evaluate_0_and_1:
  "evaluate (self\<lparr>r_evaluator := ''0 and 1''\<rparr>) [c]
   = (if c then Inr (PInt 1) else Inr (PBool False))"
proof -
  have s: "substitute ''0 and 1'' [c] = str_bool c @ '' and 1''"
    by (simp add: substitute_def replace_def str_nat.simps digit_char_def)
  have t: "py_eval ''True and 1'' = Inr (PInt 1)"
    by code_simp
  have f: "py_eval ''False and 1'' = Inr (PBool False)"
    by code_simp
  show ?thesis
    using s t f by (simp add: evaluate_def str_bool_def)
qed

lemma evaluate_0_and:
  "evaluate (self\<lparr>r_evaluator := ''0 and''\<rparr>) [c] = Inl SyntaxError"
proof -
  have s: "substitute ''0 and'' [c] = str_bool c @ '' and''"
    by (simp add: substitute_def replace_def str_nat.simps digit_char_def)
  have t: "py_eval ''True and'' = Inl SyntaxError"
    by code_simp
  have f: "py_eval ''False and'' = Inl SyntaxError"
    by code_simp
  show ?thesis
    using s t f by (simp add: evaluate_def str_bool_def)
qed

lemma py_eval_empty: "py_eval [] = Inl SyntaxError"
  by code_simp

text \<open>
  C4, as the code has it. A rule with one required label and the expression \<open>0 and 1\<close>:
  the placeholder 1 is out of range. When the requirement is met the call returns the
  integer 1, which is true; when it is not met it returns False. No error is raised.
\<close>

theorem evaluate_out_of_range_counterexample:
  "satisfied_by
     \<lparr>r_name = ''PKS'', r_rename = [], r_domains = [''KS''], r_filters = [],
      r_evaluator = ''0 and 1''\<rparr>
     [\<lparr>d_type = ''KS'', d_domain = ''PKS_KS'', d_start = 1, d_end = 100\<rparr>]
   = Inr (PInt 1)
   \<and> satisfied_by
     \<lparr>r_name = ''PKS'', r_rename = [], r_domains = [''KS''], r_filters = [],
      r_evaluator = ''0 and 1''\<rparr> []
   = Inr (PBool False)"
  using evaluate_0_and_1
    [of "\<lparr>r_name = ''PKS'', r_rename = [], r_domains = [''KS''], r_filters = [],
          r_evaluator = ''0 and 1''\<rparr>"]
  by (simp add: satisfied_by_def valid_family_def)

lemma str_contains_Cons_other:
  "sub \<noteq> [] \<Longrightarrow> hd sub \<noteq> c \<Longrightarrow> str_contains (c # s) sub = str_contains s sub"
  by (cases sub) auto

lemma str_contains_single: "c \<in> set s \<Longrightarrow> str_contains s [c]"
  by (induction s) auto

lemma str_nat_single: "n < 10 \<Longrightarrow> str_nat n = [digit_char n]"
  by (subst str_nat.simps) simp

lemma last_digit_in_str_nat: "digit_char (k mod 10) \<in> set (str_nat k)"
  by (subst str_nat.simps) simp

lemma digit_always_in_range:
  assumes "10 \<le> length conditions"
  shows "\<exists>idx < length conditions. str_contains (str_nat k) (str_nat idx)"
proof -
  have "k mod 10 < length conditions" using assms by simp
  moreover have "str_contains (str_nat k) (str_nat (k mod 10))"
    by (simp add: str_nat_single str_contains_single last_digit_in_str_nat)
  ultimately show ?thesis by blast
qed

lemma hd_str_nat_digit: "is_digit (hd (str_nat n))"
  using str_nat_digits [of n] str_nat_not_Nil [of n] by (cases "str_nat n") auto

lemma str_contains_0_and:
  assumes "sub \<noteq> []" and "is_digit (hd sub)" and "hd sub \<noteq> CHR ''0''"
  shows "str_contains (''0 and '' @ s) sub = str_contains s sub"
proof -
  from assms(2) have n: "hd sub \<noteq> CHR '' ''" "hd sub \<noteq> CHR ''a''" "hd sub \<noteq> CHR ''n''"
    "hd sub \<noteq> CHR ''d''"
    by (auto simp: is_digit_def)
  show ?thesis
    by (simp only: append_Cons append_Nil
        str_contains_Cons_other [OF assms(1) assms(3)]
        str_contains_Cons_other [OF assms(1) n(1)]
        str_contains_Cons_other [OF assms(1) n(2)]
        str_contains_Cons_other [OF assms(1) n(3)]
        str_contains_Cons_other [OF assms(1) n(4)])
qed

lemma substitute_0_and:
  assumes "conditions \<noteq> []"
    and "\<forall>idx < length conditions. \<not> str_contains (str_nat k) (str_nat idx)"
  shows "substitute (''0 and '' @ str_nat k) conditions
         = str_bool (hd conditions) @ '' and '' @ str_nat k"
proof -
  let ?e = "''0 and '' @ str_nat k"
  let ?f = "\<lambda>(idx, condition) ev. replace ev (str_nat idx) (str_bool condition)"
  from assms(1) obtain c0 cs where cs: "conditions = c0 # cs" by (cases conditions) auto
  have absent: "\<forall>p \<in> set (rev (enumerate (Suc 0) cs)). \<not> str_contains ?e (str_nat (fst p))"
  proof
    fix p assume "p \<in> set (rev (enumerate (Suc 0) cs))"
    then have ge: "1 \<le> fst p" and lt: "fst p < length conditions"
      by (auto simp: in_set_enumerate_eq cs)
    from ge have "hd (str_nat (fst p)) \<noteq> CHR ''0''" by (simp add: hd_str_nat)
    then have "str_contains ?e (str_nat (fst p)) = str_contains (str_nat k) (str_nat (fst p))"
      by (rule str_contains_0_and [OF str_nat_not_Nil hd_str_nat_digit])
    with assms(2) lt show "\<not> str_contains ?e (str_nat (fst p))" by simp
  qed
  have zero: "str_nat 0 = ''0''"
    by (simp add: str_nat_single digit_char_def)
  from assms(2) cs have "\<not> str_contains (str_nat k) ''0''"
    using zero by auto
  then have rest: "replace_nonempty ('' and '' @ str_nat k) ''0'' new = '' and '' @ str_nat k"
    for new
    by (intro replace_nonempty_absent) simp
  have "substitute ?e conditions = ?f (0, c0) (fold ?f (rev (enumerate (Suc 0) cs)) ?e)"
    by (simp add: substitute_def cs)
  also have "fold ?f (rev (enumerate (Suc 0) cs)) ?e = ?e"
    using absent by (rule fold_replace_absent)
  also have "?f (0, c0) ?e = str_bool c0 @ '' and '' @ str_nat k"
    using rest by (simp add: zero replace_def)
  finally show ?thesis by (simp add: cs)
qed

lemma py_eval_bool_and_nat:
  "py_eval (str_bool c @ '' and '' @ str_nat k)
   = (if c then Inr (PInt (int k)) else Inr (PBool False))"
proof -
  have t: "tokenize (''True and '' @ str_nat k) = Inr [TTrue, TAnd, TInt k]"
    by (simp add: tokenize.simps(2) tokenize_str_nat is_digit_def is_name_start_def
        is_name_char_def word_token_def cons_token_def)
  have f: "tokenize (''False and '' @ str_nat k) = Inr [TFalse, TAnd, TInt k]"
    by (simp add: tokenize.simps(2) tokenize_str_nat is_digit_def is_name_start_def
        is_name_char_def word_token_def cons_token_def)
  have pt: "parse (6 * length [TTrue, TAnd, TInt k] + 6) OrTest [TTrue, TAnd, TInt k]
            = Inr (And (Const (PBool True)) (Const (PInt (int k))), [])"
    by (simp add: eval_nat_numeral next_is_def after_atom_def)
  have pf: "parse (6 * length [TFalse, TAnd, TInt k] + 6) OrTest [TFalse, TAnd, TInt k]
            = Inr (And (Const (PBool False)) (Const (PInt (int k))), [])"
    by (simp add: eval_nat_numeral next_is_def after_atom_def)
  show ?thesis
  proof (cases c)
    case True
    with t pt show ?thesis by (simp add: py_eval_def str_bool_def)
  next
    case False
    with f pf show ?thesis by (simp add: py_eval_def str_bool_def)
  qed
qed

lemma evaluate_10_one_condition:
  "evaluate (self\<lparr>r_evaluator := ''10''\<rparr>) [c] = Inl SyntaxError"
proof -
  have s: "substitute ''10'' [c] = ''1'' @ str_bool c"
    by (simp add: substitute_def replace_def str_nat.simps digit_char_def)
  have t: "py_eval ''1True'' = Inl SyntaxError"
    by code_simp
  have f: "py_eval ''1False'' = Inl SyntaxError"
    by code_simp
  show ?thesis
    using s t f by (simp add: evaluate_def str_bool_def)
qed

lemma evaluate_ten_conditions:
  "evaluate (self\<lparr>r_evaluator := ''0 and 10''\<rparr>) (False # replicate 9 True)
   = Inr (PBool False)"
proof -
  have s: "substitute ''0 and 10'' (False # replicate 9 True) = ''False and TrueFalse''"
    by code_simp
  have e: "py_eval ''False and TrueFalse'' = Inr (PBool False)"
    by code_simp
  show ?thesis
    using s e by (simp add: evaluate_def)
qed

text \<open>
  C4, amended. \<open>evaluate\<close> makes no check of the placeholder indices against the number
  of conditions. For every rule and every list of conditions:
  \<^item> an expression in which the decimal form of no index below the number of conditions
    occurs is evaluated as it stands;
  \<^item> an expression that is just an index \<open>k\<close>, at least the number of conditions, in
    whose decimal form the decimal form of no index in range occurs, evaluates without an
    error to the integer \<open>k\<close>, which is true unless \<open>k\<close> is 0;
  \<^item> with at least one condition, the expression \<open>0 and k\<close> for such a \<open>k\<close> evaluates to
    the integer \<open>k\<close> when condition 0 holds and to False when it does not;
  \<^item> such a \<open>k\<close> exists only below ten conditions: from ten conditions on, some index in
    range occurs in the decimal form of every number; there too a call can return a normal
    result: with ten conditions of which the first is false and the others true, the
    expression \<open>0 and 10\<close> becomes \<open>False and TrueFalse\<close> and evaluates to False;
  \<^item> an out-of-range placeholder whose digits the substitution touches can fail: the
    expression \<open>10\<close> with one condition becomes \<open>1True\<close> or \<open>1False\<close> and fails with
    SyntaxError;
  \<^item> the expression \<open>0 and\<close> with one condition, and the empty expression with any
    conditions, fail with SyntaxError.
  So a call whose expression refers to an out-of-range placeholder can return a normal
  result.
\<close>

theorem evaluate_out_of_range:
  "((\<forall>idx < length conditions. \<not> str_contains e (str_nat idx))
      \<longrightarrow> evaluate (self\<lparr>r_evaluator := e\<rparr>) conditions = py_eval e)
   \<and> (length conditions \<le> k
       \<and> (\<forall>idx < length conditions. \<not> str_contains (str_nat k) (str_nat idx))
      \<longrightarrow> evaluate (self\<lparr>r_evaluator := str_nat k\<rparr>) conditions = Inr (PInt (int k))
          \<and> truthy (PInt (int k)) = (k \<noteq> 0))
   \<and> (conditions \<noteq> [] \<and> length conditions \<le> k
       \<and> (\<forall>idx < length conditions. \<not> str_contains (str_nat k) (str_nat idx))
      \<longrightarrow> evaluate (self\<lparr>r_evaluator := ''0 and '' @ str_nat k\<rparr>) conditions
          = (if hd conditions then Inr (PInt (int k)) else Inr (PBool False)))
   \<and> (10 \<le> length conditions
      \<longrightarrow> (\<exists>idx < length conditions. str_contains (str_nat k) (str_nat idx)))
   \<and> evaluate (self\<lparr>r_evaluator := ''0 and 10''\<rparr>) (False # replicate 9 True)
       = Inr (PBool False)
   \<and> evaluate (self\<lparr>r_evaluator := ''10''\<rparr>) [c] = Inl SyntaxError
   \<and> evaluate (self\<lparr>r_evaluator := ''0 and''\<rparr>) [c] = Inl SyntaxError
   \<and> evaluate (self\<lparr>r_evaluator := []\<rparr>) conditions = Inl SyntaxError"
proof (intro conjI impI)
  assume "\<forall>idx < length conditions. \<not> str_contains e (str_nat idx)"
  then have "substitute e conditions = e" by (rule substitute_absent)
  then show "evaluate (self\<lparr>r_evaluator := e\<rparr>) conditions = py_eval e"
    by (simp add: evaluate_def)
next
  assume "length conditions \<le> k
          \<and> (\<forall>idx < length conditions. \<not> str_contains (str_nat k) (str_nat idx))"
  then have "substitute (str_nat k) conditions = str_nat k"
    by (simp add: substitute_absent)
  then show "evaluate (self\<lparr>r_evaluator := str_nat k\<rparr>) conditions = Inr (PInt (int k))"
    by (simp add: evaluate_def py_eval_str_nat)
  show "truthy (PInt (int k)) = (k \<noteq> 0)" by simp
next
  assume a: "conditions \<noteq> [] \<and> length conditions \<le> k
          \<and> (\<forall>idx < length conditions. \<not> str_contains (str_nat k) (str_nat idx))"
  have sub: "substitute (''0 and '' @ str_nat k) conditions
             = str_bool (hd conditions) @ '' and '' @ str_nat k"
    by (rule substitute_0_and) (use a in blast)+
  have ev: "r_evaluator (self\<lparr>r_evaluator := ''0 and '' @ str_nat k\<rparr>)
            = ''0 and '' @ str_nat k"
    by simp
  show "evaluate (self\<lparr>r_evaluator := ''0 and '' @ str_nat k\<rparr>) conditions
          = (if hd conditions then Inr (PInt (int k)) else Inr (PBool False))"
    by (simp only: evaluate_def ev sub py_eval_bool_and_nat)
next
  assume "10 \<le> length conditions"
  then show "\<exists>idx < length conditions. str_contains (str_nat k) (str_nat idx)"
    by (rule digit_always_in_range)
next
  show "evaluate (self\<lparr>r_evaluator := ''0 and 10''\<rparr>) (False # replicate 9 True)
       = Inr (PBool False)"
    by (rule evaluate_ten_conditions)
  show "evaluate (self\<lparr>r_evaluator := ''10''\<rparr>) [c] = Inl SyntaxError"
    by (rule evaluate_10_one_condition)
  show "evaluate (self\<lparr>r_evaluator := ''0 and''\<rparr>) [c] = Inl SyntaxError"
    by (rule evaluate_0_and)
  show "evaluate (self\<lparr>r_evaluator := []\<rparr>) conditions = Inl SyntaxError"
    by (simp add: evaluate_def substitute_empty py_eval_empty)
qed

text \<open>
  Two conditions and the out-of-range index 2: the expressions \<open>not 2\<close>, \<open>2\<close> and
  \<open>0 and 2\<close> return False, 2 and 2. Ten conditions and the index 11: the digit 1 is an
  index in range.
\<close>

theorem evaluate_out_of_range_witness:
  "\<not> str_contains ''not 2'' (str_nat 0) \<and> \<not> str_contains ''not 2'' (str_nat 1)
   \<and> \<not> str_contains (str_nat 2) (str_nat 0) \<and> \<not> str_contains (str_nat 2) (str_nat 1)
   \<and> length [True, False] \<le> (2::nat)
   \<and> evaluate
       \<lparr>r_name = ''PKS'', r_rename = [], r_domains = [''KS'', ''AT''], r_filters = [],
        r_evaluator = ''not 2''\<rparr> [True, False]
     = Inr (PBool False)
   \<and> evaluate
       \<lparr>r_name = ''PKS'', r_rename = [], r_domains = [''KS'', ''AT''], r_filters = [],
        r_evaluator = ''2''\<rparr> [True, False]
     = Inr (PInt 2)
   \<and> evaluate
       \<lparr>r_name = ''PKS'', r_rename = [], r_domains = [''KS'', ''AT''], r_filters = [],
        r_evaluator = ''0 and 2''\<rparr> [True, False]
     = Inr (PInt 2)
   \<and> (10::nat) \<le> length (replicate 10 True)
   \<and> (\<exists>idx < length (replicate 10 True). str_contains (str_nat 11) (str_nat idx))"
proof -
  let ?self = "\<lparr>r_name = ''PKS'', r_rename = [], r_domains = [''KS'', ''AT''], r_filters = [],
                r_evaluator = ''2''\<rparr>"
  have s: "str_nat 0 = ''0''" "str_nat 1 = ''1''" "str_nat 2 = ''2''"
    by (simp_all add: str_nat.simps digit_char_def)
  have a: "\<not> str_contains ''not 2'' (str_nat 0)" "\<not> str_contains ''not 2'' (str_nat 1)"
    "\<not> str_contains (str_nat 2) (str_nat 0)" "\<not> str_contains (str_nat 2) (str_nat 1)"
    unfolding s by simp_all
  have h1: "\<forall>idx < length [True, False]. \<not> str_contains ''not 2'' (str_nat idx)"
    using a by (simp add: less_Suc_eq)
  have h2: "\<forall>idx < length [True, False]. \<not> str_contains (str_nat 2) (str_nat idx)"
    using a by (simp add: less_Suc_eq)
  have n: "py_eval ''not 2'' = Inr (PBool False)" by code_simp
  note t1 = evaluate_out_of_range [of "[True, False]" "''not 2''" ?self 2 True]
  note t2 = evaluate_out_of_range [of "replicate 10 True" "''not 2''" ?self 11 True]
  from t1 h1 h2 n have
    "evaluate (?self\<lparr>r_evaluator := ''not 2''\<rparr>) [True, False] = Inr (PBool False)"
    "evaluate (?self\<lparr>r_evaluator := str_nat 2\<rparr>) [True, False] = Inr (PInt 2)"
    "evaluate (?self\<lparr>r_evaluator := ''0 and '' @ str_nat 2\<rparr>) [True, False] = Inr (PInt 2)"
    by simp_all
  moreover from t2 have
    "\<exists>idx < length (replicate 10 True). str_contains (str_nat 11) (str_nat idx)"
    by simp
  ultimately show ?thesis
    using a by (simp add: s)
qed

section \<open>Traversal of the rule graph\<close>

lemma satisfied_by_no_domains:
  "r_domains self = [] \<Longrightarrow> satisfied_by self domains = py_eval (r_evaluator self)"
  by (simp add: satisfied_by_def evaluate_def substitute_Nil_conditions)

lemma traverse_dict_unsatisfied:
  assumes "\<forall>name \<in> set (map fst items).
             \<exists>rule v. rules name = Some rule \<and> satisfied_by rule domains = Inr v \<and> \<not> truthy v"
  shows "traverse_dict items rules domains classifiers = Inr (classifiers, domains)"
  using assms
proof (induction items)
  case Nil
  then show ?case by simp
next
  case (Cons item items)
  obtain name children where item: "item = (name, children)" by (cases item)
  from Cons.prems item obtain rule v where
    "rules name = Some rule" "satisfied_by rule domains = Inr v" "\<not> truthy v"
    by auto
  moreover from Cons have "traverse_dict items rules domains classifiers
                           = Inr (classifiers, domains)"
    by simp
  ultimately show ?case by (simp add: item)
qed

lemma traverse_list_unsatisfied:
  assumes "\<forall>name \<in> set (level_names graph).
             \<exists>rule v. rules name = Some rule \<and> satisfied_by rule domains = Inr v \<and> \<not> truthy v"
  shows "traverse_list graph rules domains classifiers = Inr (classifiers, domains)"
  using assms
proof (induction graph)
  case Nil
  then show ?case by simp
next
  case (Cons node graph)
  from Cons.prems have "\<forall>name \<in> set (level_names graph).
      \<exists>rule v. rules name = Some rule \<and> satisfied_by rule domains = Inr v \<and> \<not> truthy v"
    by (auto simp: level_names_def)
  then have rest: "traverse_list graph rules domains classifiers
                   = Inr (classifiers, domains)"
    by (rule Cons.IH)
  show ?case
  proof (cases node)
    case (Leaf name)
    with Cons.prems obtain rule v where
      "rules name = Some rule" "satisfied_by rule domains = Inr v" "\<not> truthy v"
      by (auto simp: level_names_def)
    with rest Leaf show ?thesis by simp
  next
    case (Sub items)
    with Cons.prems have "\<forall>name \<in> set (map fst items).
        \<exists>rule v. rules name = Some rule \<and> satisfied_by rule domains = Inr v \<and> \<not> truthy v"
      by (simp add: level_names_def)
    then have "traverse_dict items rules domains classifiers = Inr (classifiers, domains)"
      by (rule traverse_dict_unsatisfied)
    with rest Sub show ?thesis by auto
  qed
qed

text \<open>
  C6, as the code has it. A rule that requires no domain is evaluated like any other: its
  expression is evaluated as it stands. With the expression \<open>False\<close> the rule is not
  satisfied, and with the empty expression, the default of \<open>Rule\<close>, \<open>satisfied_by\<close>
  raises SyntaxError.
\<close>

theorem satisfied_by_no_domains_counterexample:
  "satisfied_by
     \<lparr>r_name = ''any'', r_rename = [], r_domains = [], r_filters = [],
      r_evaluator = ''False''\<rparr> []
   = Inr (PBool False)
   \<and> satisfied_by
     \<lparr>r_name = [], r_rename = [], r_domains = [], r_filters = [], r_evaluator = []\<rparr> []
   = Inl SyntaxError"
proof -
  have "py_eval ''False'' = Inr (PBool False)" by code_simp
  then show ?thesis
    by (simp add: satisfied_by_no_domains py_eval_empty)
qed

text \<open>
  C6, amended. For a rule that requires no domain, \<open>satisfied_by\<close> returns for every hit
  list what the expression of the rule evaluates to as it stands, whatever the hits: true
  only when the expression itself is true, and an error when the expression is not
  well-formed. A subject without hits, classified against a graph whose rules at the top
  level all evaluate to a false value, gets the empty label path and no error.
\<close>

theorem no_domains_and_unclassified:
  "(r_domains self = [] \<longrightarrow> satisfied_by self domains = py_eval (r_evaluator self))
   \<and> ((\<forall>name \<in> set (level_names graph).
          \<exists>rule v. rules name = Some rule \<and> satisfied_by rule [] = Inr v \<and> \<not> truthy v)
        \<longrightarrow> classify graph rules [] = Inr [])"
proof (intro conjI impI)
  assume "r_domains self = []"
  then show "satisfied_by self domains = py_eval (r_evaluator self)"
    by (rule satisfied_by_no_domains)
next
  assume "\<forall>name \<in> set (level_names graph).
          \<exists>rule v. rules name = Some rule \<and> satisfied_by rule [] = Inr v \<and> \<not> truthy v"
  then have "traverse_list graph rules [] [] = Inr ([], [])"
    by (rule traverse_list_unsatisfied)
  then show "classify graph rules [] = Inr []"
    by (simp add: classify_def)
qed

theorem no_domains_and_unclassified_witness:
  "satisfied_by
     \<lparr>r_name = ''any'', r_rename = [], r_domains = [], r_filters = [],
      r_evaluator = ''True''\<rparr>
     [\<lparr>d_type = ''KS'', d_domain = ''PKS_KS'', d_start = 1, d_end = 100\<rparr>]
   = Inr (PBool True)
   \<and> classify
       [Leaf ''Hybrid'', Sub [(''PKS'', [Leaf ''HR-PKS''])]]
       (map_of
          [(''Hybrid'', \<lparr>r_name = ''Hybrid'', r_rename = [], r_domains = [''KS'', ''A''],
                         r_filters = [], r_evaluator = ''0 and 1''\<rparr>),
           (''PKS'', \<lparr>r_name = ''PKS'', r_rename = [], r_domains = [''KS''],
                      r_filters = [], r_evaluator = ''0''\<rparr>)])
       []
     = Inr []"
proof -
  let ?hybrid = "\<lparr>r_name = ''Hybrid'', r_rename = [], r_domains = [''KS'', ''A''],
                  r_filters = [], r_evaluator = ''0 and 1''\<rparr>"
  let ?pks = "\<lparr>r_name = ''PKS'', r_rename = [], r_domains = [''KS''],
               r_filters = [], r_evaluator = ''0''\<rparr>"
  let ?rules = "map_of [(''Hybrid'', ?hybrid), (''PKS'', ?pks)]"
  have t: "py_eval ''True'' = Inr (PBool True)" by code_simp
  have h: "satisfied_by ?hybrid [] = Inr (PBool False)" by code_simp
  have p: "satisfied_by ?pks [] = Inr (PBool False)" by code_simp
  have "\<forall>name \<in> set (level_names [Leaf ''Hybrid'', Sub [(''PKS'', [Leaf ''HR-PKS''])]]).
          \<exists>rule v. ?rules name = Some rule \<and> satisfied_by rule [] = Inr v \<and> \<not> truthy v"
    using h p by (simp add: level_names_def)
  with no_domains_and_unclassified
    [of "\<lparr>r_name = ''any'', r_rename = [], r_domains = [], r_filters = [],
          r_evaluator = ''True''\<rparr>"
        "[\<lparr>d_type = ''KS'', d_domain = ''PKS_KS'', d_start = 1, d_end = 100\<rparr>]"
        "[Leaf ''Hybrid'', Sub [(''PKS'', [Leaf ''HR-PKS''])]]" ?rules]
  show ?thesis using t by simp
qed

text \<open>
  C1, on the code. The graph \<open>[{"A": [{"B": ["X"]}, "C"]}]\<close> with rules \<open>A\<close> and \<open>C\<close>
  that are satisfied and a rule \<open>B\<close> that is not, for a subject without hits. Below \<open>A\<close>
  the entry \<open>B\<close> fails and returns the classifiers \<open>["A"]\<close> it was given; the list branch
  tests \<open>if classifiers\<close>, finds them non-empty and breaks, so the sibling \<open>C\<close> is never
  evaluated and the result is \<open>["A"]\<close>. At the top level, where the classifiers are
  empty, the same two entries give \<open>["C"]\<close>.
\<close>

theorem traverse_graph_nested_sibling_skipped:
  "classify
     [Sub [(''A'', [Sub [(''B'', [Leaf ''X''])], Leaf ''C''])]]
     (map_of
        [(''A'', \<lparr>r_name = ''A'', r_rename = [], r_domains = [], r_filters = [],
                  r_evaluator = ''True''\<rparr>),
         (''B'', \<lparr>r_name = ''B'', r_rename = [], r_domains = [''KS''], r_filters = [],
                  r_evaluator = ''0''\<rparr>),
         (''C'', \<lparr>r_name = ''C'', r_rename = [], r_domains = [], r_filters = [],
                  r_evaluator = ''True''\<rparr>),
         (''X'', \<lparr>r_name = ''X'', r_rename = [], r_domains = [], r_filters = [],
                  r_evaluator = ''True''\<rparr>)])
     []
   = Inr [''A'']
   \<and> classify
     [Sub [(''B'', [Leaf ''X''])], Leaf ''C'']
     (map_of
        [(''A'', \<lparr>r_name = ''A'', r_rename = [], r_domains = [], r_filters = [],
                  r_evaluator = ''True''\<rparr>),
         (''B'', \<lparr>r_name = ''B'', r_rename = [], r_domains = [''KS''], r_filters = [],
                  r_evaluator = ''0''\<rparr>),
         (''C'', \<lparr>r_name = ''C'', r_rename = [], r_domains = [], r_filters = [],
                  r_evaluator = ''True''\<rparr>),
         (''X'', \<lparr>r_name = ''X'', r_rename = [], r_domains = [], r_filters = [],
                  r_evaluator = ''True''\<rparr>)])
     []
   = Inr [''C'']"
proof -
  let ?a = "\<lparr>r_name = ''A'', r_rename = [], r_domains = [], r_filters = [],
             r_evaluator = ''True''\<rparr>"
  let ?b = "\<lparr>r_name = ''B'', r_rename = [], r_domains = [''KS''], r_filters = [],
             r_evaluator = ''0''\<rparr>"
  let ?c = "\<lparr>r_name = ''C'', r_rename = [], r_domains = [], r_filters = [],
             r_evaluator = ''True''\<rparr>"
  have a: "satisfied_by ?a [] = Inr (PBool True)" by code_simp
  have b: "satisfied_by ?b [] = Inr (PBool False)" by code_simp
  have c: "satisfied_by ?c [] = Inr (PBool True)" by code_simp
  show ?thesis
    by (simp add: classify_def a b c rename_domains_def)
qed

section \<open>satisfied_by leaves the hits as they are\<close>

lemma valid_family_st_eq:
  "valid_family_st self domain s = (valid_family self (objects s domain), s)"
  by (simp add: valid_family_st_def valid_family_def split: option.splits)

lemma in_seen_eq:
  "in_seen s domain seen = (objects s domain \<in> set (map (objects s) seen))"
  by (auto simp: in_seen_def)

lemma find_match_st_eq:
  "snd (find_match_st self rule_domain seen i s) = s
   \<and> map_option (objects s) (fst (find_match_st self rule_domain seen i s))
     = find_match self rule_domain (map (objects s) seen)
         (map (objects s) (drop i (domains_list s)))"
proof (induction self rule_domain seen i s rule: find_match_st.induct)
  case (1 self rule_domain seen i s)
  show ?case
  proof (cases "i < length (domains_list s)")
    case False
    then show ?thesis
      by (subst (1 2) find_match_st.simps) simp
  next
    case inb: True
    let ?d = "domains_list s ! i"
    from inb have dr: "drop i (domains_list s) = ?d # drop (i + 1) (domains_list s)"
      by (simp add: Cons_nth_drop_Suc)
    show ?thesis
    proof (cases "in_seen s ?d seen")
      case True
      have "find_match_st self rule_domain seen i s
            = find_match_st self rule_domain seen (i + 1) s"
        using inb True by (subst find_match_st.simps) (simp add: Let_def)
      with 1(1) [OF inb refl True] True show ?thesis
        by (simp add: dr in_seen_eq)
    next
      case ns: False
      show ?thesis
      proof (cases "d_type (objects s ?d) = rule_domain \<and> valid_family self (objects s ?d)")
        case True
        then have "find_match_st self rule_domain seen i s = (Some ?d, s)"
          using inb ns
          by (subst find_match_st.simps) (simp add: Let_def valid_family_st_eq)
        with True ns show ?thesis
          by (simp add: dr in_seen_eq)
      next
        case False
        have unf: "find_match_st self rule_domain seen i s
              = find_match_st self rule_domain seen (i + 1) s"
          using inb ns False
          by (subst find_match_st.simps) (auto simp: Let_def valid_family_st_eq)
        have ih: "snd (find_match_st self rule_domain seen (i + 1) s) = s
           \<and> map_option (objects s) (fst (find_match_st self rule_domain seen (i + 1) s))
             = find_match self rule_domain (map (objects s) seen)
                 (map (objects s) (drop (i + 1) (domains_list s)))"
        proof (cases "d_type (objects s ?d) = rule_domain")
          case True
          with False have nv: "\<not> valid_family self (objects s ?d)" by simp
          have "(valid_family self (objects s ?d), s) = valid_family_st self ?d s"
            by (simp add: valid_family_st_eq)
          from 1(2) [OF inb refl ns True this refl] nv show ?thesis by simp
        next
          case False
          from 1(3) [OF inb refl ns False] show ?thesis .
        qed
        from ih False ns show ?thesis
          unfolding unf by (auto simp: dr in_seen_eq)
      qed
    qed
  qed
qed

lemma match_loop_st_eq:
  "snd (match_loop_st self rule_domains seen conditions s) = s
   \<and> (map (objects s) (fst (fst (match_loop_st self rule_domains seen conditions s))),
      snd (fst (match_loop_st self rule_domains seen conditions s)))
     = match_loop self (map (objects s) (domains_list s)) rule_domains
         (map (objects s) seen) conditions"
proof (induction rule_domains arbitrary: seen conditions)
  case Nil
  show ?case by simp
next
  case (Cons rd rds)
  obtain r where fm: "find_match_st self rd seen 0 s = (r, s)"
    using find_match_st_eq [of self rd seen 0 s]
    by (cases "find_match_st self rd seen 0 s") simp
  from find_match_st_eq [of self rd seen 0 s] fm
  have pure: "find_match self rd (map (objects s) seen) (map (objects s) (domains_list s))
              = map_option (objects s) r"
    by simp
  show ?case
  proof (cases r)
    case None
    with fm pure Cons.IH [of seen "conditions @ [False]"] show ?thesis by simp
  next
    case (Some d)
    with fm pure Cons.IH [of "seen @ [d]" "conditions @ [True]"] show ?thesis by simp
  qed
qed

text \<open>
  C9. A call of \<open>satisfied_by\<close> returns the store it was given: every Domain object has
  the label, family, start and end it had before, and the list of hits holds the same
  references in the same order. \<open>valid_family\<close> leaves the store alone as well, and
  \<open>evaluate\<close> is not given the hits. The value returned is the one \<open>satisfied_by\<close> computes
  from the values of the hits.
\<close>

theorem satisfied_by_st_frame:
  "snd (satisfied_by_st self s) = s
   \<and> objects (snd (satisfied_by_st self s)) = objects s
   \<and> domains_list (snd (satisfied_by_st self s)) = domains_list s
   \<and> snd (valid_family_st self domain s) = s
   \<and> fst (satisfied_by_st self s) = satisfied_by self (map (objects s) (domains_list s))"
proof -
  obtain seen conditions s' where
    ml: "match_loop_st self (r_domains self) [] [] s = ((seen, conditions), s')"
    by (cases "match_loop_st self (r_domains self) [] [] s") auto
  from match_loop_st_eq [of self "r_domains self" "[]" "[]" s] ml
  have s': "s' = s"
    and pure: "match_loop self (map (objects s) (domains_list s)) (r_domains self) [] []
               = (map (objects s) seen, conditions)"
    by simp_all
  from ml s' pure show ?thesis
    by (simp add: satisfied_by_st_def satisfied_by_def valid_family_st_eq)
qed

end
